theory Spec2Isabelle
  imports Main
begin

section \<open>The in-flight limiter of the job controller\<close>

text \<open>
  The Go package \<^verbatim>\<open>limiter\<close> wraps a job handler and lets a job through only while a
  token is left in a bucket. The bucket is a buffered channel of empty structs whose
  capacity is the configured limit. A second path, the Kubernetes informer callbacks
  \<^verbatim>\<open>OnAdd\<close>, \<^verbatim>\<open>OnUpdate\<close> and \<^verbatim>\<open>OnDelete\<close>, takes and returns tokens without
  blocking.

  Logging and the Prometheus metrics (gauges, counters, the wait histogram) neither read
  nor write the limiter, and are left out of the model.
\<close>

subsection \<open>Buffered channels\<close>

text \<open>
  A buffered Go channel is its capacity and the queue of values it holds. A send
  blocks while the queue is full, a receive blocks while it is empty: the blocking
  operations return \<open>None\<close> where the goroutine would have to wait. A channel made with
  capacity zero has no buffer; here its send and receive always wait, no partner being
  modelled.
\<close>

record 'a chan =
  chan_cap :: nat
  chan_buf :: "'a list"

definition make_chan :: "nat \<Rightarrow> 'a chan" where
  "make_chan n = \<lparr>chan_cap = n, chan_buf = []\<rparr>"

definition len :: "'a chan \<Rightarrow> nat" where
  "len ch = length (chan_buf ch)"

definition chan_send :: "'a \<Rightarrow> 'a chan \<Rightarrow> 'a chan option" where
  "chan_send v ch =
     (if len ch < chan_cap ch then Some (ch\<lparr>chan_buf := chan_buf ch @ [v]\<rparr>) else None)"

definition chan_recv :: "'a chan \<Rightarrow> ('a \<times> 'a chan) option" where
  "chan_recv ch =
     (case chan_buf ch of
        [] \<Rightarrow> None
      | v # vs \<Rightarrow> Some (v, ch\<lparr>chan_buf := vs\<rparr>))"

subsection \<open>Errors, contexts and jobs\<close>

text \<open>
  Modelled from the spec: \<^verbatim>\<open>model.ErrStaleJob\<close> is declared in a package that is not
  part of the sources at hand; the spec calls it a distinguished, stable error value.
  Every other error value is told apart by its message.
\<close>

datatype error = ErrStaleJob | Error string

text \<open>
  A context is either live or cancelled with a cause. \<open>Done\<close> says whether the channel
  \<^verbatim>\<open>ctx.Done()\<close> is closed, \<open>Cause\<close> is \<^verbatim>\<open>context.Cause(ctx)\<close>: nil (\<open>None\<close>) before the
  cancellation, the cause after it.
\<close>

datatype "context" = Live | Cancelled error

fun Done :: "context \<Rightarrow> bool" where
  "Done Live = False"
| "Done (Cancelled e) = True"

fun Cause :: "context \<Rightarrow> error option" where
  "Cause Live = None"
| "Cause (Cancelled e) = Some e"

text \<open>
  Of \<^verbatim>\<open>model.Job\<close> the limiter reads the identifier and the staleness channel. \<open>StaleCh\<close>
  holds whether a receive from that channel is ready, that is, whether the signal has
  fired.
\<close>

record Job =
  Uuid :: string
  StaleCh :: bool

subsection \<open>The limiter\<close>

type_synonym token = unit

record MaxInFlight =
  MaxInFlight :: int
  handler :: "context \<Rightarrow> Job \<Rightarrow> error option"
  tokenBucket :: "token chan"

text \<open>The number of tokens in the bucket, \<^verbatim>\<open>len(l.tokenBucket)\<close>, a Go \<^verbatim>\<open>int\<close>.\<close>

definition tokensAvailable :: "MaxInFlight \<Rightarrow> int" where
  "tokensAvailable l = int (len (tokenBucket l))"

text \<open>
  What a call does: it returns a value, panics with a message, or waits forever.
\<close>

datatype 'a outcome = Return 'a | Panic string | Blocked

text \<open>The verb \<^verbatim>\<open>%d\<close> of \<^verbatim>\<open>fmt.Sprintf\<close>: a decimal numeral, with a minus sign below zero.\<close>

definition digit_char :: "nat \<Rightarrow> char" where
  "digit_char d = char_of (48 + d)"

function digits :: "nat \<Rightarrow> string" where
  "digits n = (if n < 10 then [digit_char n] else digits (n div 10) @ [digit_char (n mod 10)])"
  by pat_completeness auto
termination
  by (relation "measure (\<lambda>n. n)") auto

definition Sprintf_d :: "int \<Rightarrow> string" where
  "Sprintf_d i = (if i < 0 then CHR ''-'' # digits (nat (- i)) else digits (nat i))"

text \<open>
  The loop of \<open>New\<close> that fills the bucket: \<open>n\<close> blocking sends. Nothing else holds
  the channel yet, so a send that has to wait waits forever.
\<close>

fun fill :: "nat \<Rightarrow> token chan \<Rightarrow> token chan option" where
  "fill 0 ch = Some ch"
| "fill (Suc n) ch =
     (case chan_send () ch of
        None \<Rightarrow> None
      | Some ch' \<Rightarrow> fill n ch')"

definition New :: "(context \<Rightarrow> Job \<Rightarrow> error option) \<Rightarrow> int \<Rightarrow> MaxInFlight outcome" where
  "New scheduler maxInFlight =
     (if maxInFlight \<le> 0 then Panic (''maxInFlight <= 0 (got '' @ Sprintf_d maxInFlight @ '')'')
      else
        (case fill (nat maxInFlight) (make_chan (nat maxInFlight)) of
           None \<Rightarrow> Blocked
         | Some ch \<Rightarrow>
             Return \<lparr>MaxInFlight = maxInFlight, handler = scheduler, tokenBucket = ch\<rparr>))"

text \<open>
  \<open>tryTakeToken\<close> and \<open>tryReturnToken\<close> are a \<^verbatim>\<open>select\<close> with a \<^verbatim>\<open>default\<close> branch:
  the channel operation when it is ready, nothing otherwise.
\<close>

definition tryTakeToken :: "MaxInFlight \<Rightarrow> MaxInFlight" where
  "tryTakeToken l =
     (case chan_recv (tokenBucket l) of
        Some (t, ch) \<Rightarrow> l\<lparr>tokenBucket := ch\<rparr>
      | None \<Rightarrow> l)"

definition tryReturnToken :: "MaxInFlight \<Rightarrow> MaxInFlight" where
  "tryReturnToken l =
     (case chan_send () (tokenBucket l) of
        Some ch \<Rightarrow> l\<lparr>tokenBucket := ch\<rparr>
      | None \<Rightarrow> l)"

subsection \<open>Handle\<close>

text \<open>
  \<open>Handle\<close> starts with a \<^verbatim>\<open>select\<close> over three receives and no \<^verbatim>\<open>default\<close>. Go
  commits to one of the cases that are ready (any of them when several are) and waits
  while none is. The case the \<^verbatim>\<open>select\<close> commits to is an argument of the model;
  \<open>ready\<close> says whether the \<^verbatim>\<open>select\<close> can commit to it.
\<close>

datatype select_case = CtxDone | JobStale | TokenRecv

fun ready :: "MaxInFlight \<Rightarrow> context \<Rightarrow> Job \<Rightarrow> select_case \<Rightarrow> bool" where
  "ready l ctx job CtxDone = Done ctx"
| "ready l ctx job JobStale = StaleCh job"
| "ready l ctx job TokenRecv = (chan_recv (tokenBucket l) \<noteq> None)"

text \<open>
  The \<^verbatim>\<open>select\<close> of \<open>Handle\<close>: \<open>None\<close> when the chosen case is not ready (the call is
  still waiting, or commits to another case), \<open>Inl err\<close> when \<open>Handle\<close> returns
  \<open>err\<close> at once, \<open>Inr l'\<close> when a token was received and the call goes on with the
  limiter \<open>l'\<close>.
\<close>

definition Handle_select ::
  "select_case \<Rightarrow> MaxInFlight \<Rightarrow> context \<Rightarrow> Job \<Rightarrow> (error option + MaxInFlight) option" where
  "Handle_select w l ctx job =
     (case w of
        CtxDone \<Rightarrow> (if Done ctx then Some (Inl (Cause ctx)) else None)
      | JobStale \<Rightarrow> (if StaleCh job then Some (Inl (Some ErrStaleJob)) else None)
      | TokenRecv \<Rightarrow>
          (case chan_recv (tokenBucket l) of
             None \<Rightarrow> None
           | Some (t, ch) \<Rightarrow> Some (Inr (l\<lparr>tokenBucket := ch\<rparr>))))"

text \<open>
  The rest of \<open>Handle\<close>, after the token: the job goes to the next handler; when that
  fails, the token is offered back and the error returned.
\<close>

definition Handle_next :: "MaxInFlight \<Rightarrow> context \<Rightarrow> Job \<Rightarrow> error option \<times> MaxInFlight" where
  "Handle_next l ctx job =
     (case handler l ctx job of
        Some err \<Rightarrow> (Some err, tryReturnToken l)
      | None \<Rightarrow> (None, l))"

definition Handle ::
  "select_case \<Rightarrow> MaxInFlight \<Rightarrow> context \<Rightarrow> Job \<Rightarrow> (error option \<times> MaxInFlight) option" where
  "Handle w l ctx job =
     (case Handle_select w l ctx job of
        None \<Rightarrow> None
      | Some (Inl err) \<Rightarrow> Some (err, l)
      | Some (Inr l') \<Rightarrow> Some (Handle_next l' ctx job))"

subsection \<open>The informer callbacks\<close>

text \<open>
  The callbacks get values of type \<^verbatim>\<open>any\<close>. Such a value is nil, a (possibly nil)
  pointer to a \<^verbatim>\<open>batchv1.Job\<close>, or something of another type. \<open>as_Job\<close> is the
  assertion \<^verbatim>\<open>job, _ := obj.(*batchv1.Job)\<close>, whose result is nil unless \<open>obj\<close> holds a
  pointer to a job that is not nil.

  \<^verbatim>\<open>model.JobFinished\<close> is not part of the sources at hand either. The callbacks take
  it as the argument \<open>JobFinished\<close>, over any type \<open>'j\<close> of job resources.
\<close>

datatype 'j any = NilAny | JobPtr "'j option" | OtherAny

fun as_Job :: "'j any \<Rightarrow> 'j option" where
  "as_Job (JobPtr p) = p"
| "as_Job NilAny = None"
| "as_Job OtherAny = None"

definition OnAdd :: "('j \<Rightarrow> bool) \<Rightarrow> MaxInFlight \<Rightarrow> 'j any \<Rightarrow> bool \<Rightarrow> MaxInFlight" where
  "OnAdd JobFinished l obj inInitialList =
     (case as_Job obj of
        None \<Rightarrow> l
      | Some job \<Rightarrow>
          if \<not> inInitialList then l
          else if \<not> JobFinished job then tryTakeToken l
          else l)"

definition OnUpdate :: "('j \<Rightarrow> bool) \<Rightarrow> MaxInFlight \<Rightarrow> 'j any \<Rightarrow> 'j any \<Rightarrow> MaxInFlight" where
  "OnUpdate JobFinished l prevObj currObj =
     (case (as_Job prevObj, as_Job currObj) of
        (Some prevState, Some currState) \<Rightarrow>
          if \<not> JobFinished prevState \<and> JobFinished currState then tryReturnToken l else l
      | _ \<Rightarrow> l)"

definition OnDelete :: "('j \<Rightarrow> bool) \<Rightarrow> MaxInFlight \<Rightarrow> 'j any \<Rightarrow> MaxInFlight" where
  "OnDelete JobFinished l obj =
     (case as_Job obj of
        None \<Rightarrow> l
      | Some prevState \<Rightarrow> if \<not> JobFinished prevState then tryReturnToken l else l)"

subsection \<open>Interleavings\<close>

text \<open>
  Calls of \<open>Handle\<close> and the callbacks run concurrently, and every access to the bucket
  is one channel operation. A run of the system is therefore a sequence of steps, each
  touching the bucket at most once: the \<^verbatim>\<open>select\<close> of some call of \<open>Handle\<close>, the rest
  of some call of \<open>Handle\<close>, or one callback. A \<^verbatim>\<open>select\<close> that cannot commit leaves
  the limiter as it is. The sequences are not restricted further (the rest of a call may
  come without its \<^verbatim>\<open>select\<close>), so they cover every interleaving that can happen.
\<close>

datatype 'j step =
    Select select_case "context" Job
  | Next "context" Job
  | Add "'j any" bool
  | Update "'j any" "'j any"
  | Delete "'j any"

fun do_step :: "('j \<Rightarrow> bool) \<Rightarrow> MaxInFlight \<Rightarrow> 'j step \<Rightarrow> MaxInFlight" where
  "do_step JobFinished l (Select w ctx job) =
     (case Handle_select w l ctx job of
        Some (Inr l') \<Rightarrow> l'
      | _ \<Rightarrow> l)"
| "do_step JobFinished l (Next ctx job) = snd (Handle_next l ctx job)"
| "do_step JobFinished l (Add obj inInitialList) = OnAdd JobFinished l obj inInitialList"
| "do_step JobFinished l (Update prevObj currObj) = OnUpdate JobFinished l prevObj currObj"
| "do_step JobFinished l (Delete obj) = OnDelete JobFinished l obj"

definition run :: "('j \<Rightarrow> bool) \<Rightarrow> MaxInFlight \<Rightarrow> 'j step list \<Rightarrow> MaxInFlight" where
  "run JobFinished l steps = foldl (do_step JobFinished) l steps"

subsection \<open>The invariant of the bucket\<close>

text \<open>
  The bucket never holds more tokens than its capacity, and no step changes the
  capacity or the configured limit.
\<close>

definition bucket_ok :: "MaxInFlight \<Rightarrow> bool" where
  "bucket_ok l = (len (tokenBucket l) \<le> chan_cap (tokenBucket l))"

definition same_limits :: "MaxInFlight \<Rightarrow> MaxInFlight \<Rightarrow> bool" where
  "same_limits l l' =
     (MaxInFlight l' = MaxInFlight l \<and> chan_cap (tokenBucket l') = chan_cap (tokenBucket l))"

subsection \<open>Example values\<close>

text \<open>
  Values at which the statements below are instantiated: job resources that are running,
  succeeded or failed, a next handler that refuses a job whose staleness signal has fired
  and cannot schedule the job named \<open>bad\<close>, a limiter of capacity two as \<open>New\<close> builds
  it, and the same limiter with one token taken.
\<close>

datatype example_resource = Running | Succeeded | Failed

fun example_finished :: "example_resource \<Rightarrow> bool" where
  "example_finished Running = False"
| "example_finished Succeeded = True"
| "example_finished Failed = True"

definition example_next :: "context \<Rightarrow> Job \<Rightarrow> error option" where
  "example_next ctx job =
     (if StaleCh job then Some ErrStaleJob
      else if Uuid job = ''bad'' then Some (Error ''cannot schedule'')
      else None)"

definition fresh_limiter :: MaxInFlight where
  "fresh_limiter =
     \<lparr>MaxInFlight = 2, handler = example_next,
      tokenBucket = \<lparr>chan_cap = 2, chan_buf = [(), ()]\<rparr>\<rparr>"

definition busy_limiter :: MaxInFlight where
  "busy_limiter =
     \<lparr>MaxInFlight = 2, handler = example_next,
      tokenBucket = \<lparr>chan_cap = 2, chan_buf = [()]\<rparr>\<rparr>"

definition example_run :: "example_resource step list" where
  "example_run =
     [Add (JobPtr (Some Running)) True,
      Select TokenRecv Live \<lparr>Uuid = ''bad'', StaleCh = False\<rparr>,
      Next Live \<lparr>Uuid = ''bad'', StaleCh = False\<rparr>,
      Update (JobPtr (Some Running)) (JobPtr (Some Succeeded)),
      Delete (JobPtr (Some Running))]"

section \<open>Properties\<close>

subsection \<open>Channels and tokens\<close>

lemma fill_room:
  "len ch + n \<le> chan_cap ch \<Longrightarrow> fill n ch = Some (ch\<lparr>chan_buf := chan_buf ch @ replicate n ()\<rparr>)"
proof (induction n arbitrary: ch)
  case 0
  then show ?case by simp
next
  case (Suc n)
  have s: "chan_send () ch = Some (ch\<lparr>chan_buf := chan_buf ch @ [()]\<rparr>)"
    using Suc.prems by (simp add: chan_send_def)
  have "len (ch\<lparr>chan_buf := chan_buf ch @ [()]\<rparr>) + n \<le> chan_cap (ch\<lparr>chan_buf := chan_buf ch @ [()]\<rparr>)"
    using Suc.prems by (simp add: len_def)
  from Suc.IH[OF this] s show ?case
    by (simp add: replicate_app_Cons_same)
qed

lemma fill_make_chan: "fill n (make_chan n) = Some \<lparr>chan_cap = n, chan_buf = replicate n ()\<rparr>"
  using fill_room[of "make_chan n" n] by (simp add: make_chan_def len_def)

lemma New_Return:
  "New scheduler n = Return l \<Longrightarrow>
     1 \<le> n \<and> l = \<lparr>MaxInFlight = n, handler = scheduler,
                    tokenBucket = \<lparr>chan_cap = nat n, chan_buf = replicate (nat n) ()\<rparr>\<rparr>"
  by (auto simp: New_def fill_make_chan split: if_splits)

lemma New_fresh_limiter: "New example_next 2 = Return fresh_limiter"
  by (simp add: New_def fill_make_chan numeral_2_eq_2 fresh_limiter_def)

lemma tryTakeToken_len:
  "len (tokenBucket (tryTakeToken l)) = len (tokenBucket l) - 1"
  by (simp add: tryTakeToken_def chan_recv_def len_def split: list.splits)

lemma tryReturnToken_len:
  "len (tokenBucket (tryReturnToken l)) =
     (if len (tokenBucket l) < chan_cap (tokenBucket l) then len (tokenBucket l) + 1
      else len (tokenBucket l))"
  by (simp add: tryReturnToken_def chan_send_def len_def)

lemma tryTakeToken_fields [simp]:
  "chan_cap (tokenBucket (tryTakeToken l)) = chan_cap (tokenBucket l)"
  "MaxInFlight (tryTakeToken l) = MaxInFlight l"
  "handler (tryTakeToken l) = handler l"
  by (simp_all add: tryTakeToken_def chan_recv_def split: list.splits)

lemma tryReturnToken_fields [simp]:
  "chan_cap (tokenBucket (tryReturnToken l)) = chan_cap (tokenBucket l)"
  "MaxInFlight (tryReturnToken l) = MaxInFlight l"
  "handler (tryReturnToken l) = handler l"
  by (simp_all add: tryReturnToken_def chan_send_def)

lemma tokens_take:
  "tokensAvailable (tryTakeToken l) =
     (if 0 < tokensAvailable l then tokensAvailable l - 1 else tokensAvailable l)"
  by (auto simp: tokensAvailable_def tryTakeToken_len)

lemma tokens_return:
  "tokensAvailable (tryReturnToken l) =
     (if tokensAvailable l < int (chan_cap (tokenBucket l)) then tokensAvailable l + 1
      else tokensAvailable l)"
  by (simp add: tokensAvailable_def tryReturnToken_len)

lemma tryTakeToken_empty: "tokensAvailable l = 0 \<Longrightarrow> tryTakeToken l = l"
  by (simp add: tokensAvailable_def len_def tryTakeToken_def chan_recv_def)

lemma tryReturnToken_full:
  "len (tokenBucket l) = chan_cap (tokenBucket l) \<Longrightarrow> tryReturnToken l = l"
  by (simp add: tryReturnToken_def chan_send_def)

lemma tryTakeToken_ok: "bucket_ok l \<Longrightarrow> bucket_ok (tryTakeToken l)"
  by (simp add: bucket_ok_def tryTakeToken_len)

lemma tryReturnToken_ok: "bucket_ok l \<Longrightarrow> bucket_ok (tryReturnToken l)"
  by (simp add: bucket_ok_def tryReturnToken_len)

subsection \<open>The select of Handle\<close>

text \<open>The \<^verbatim>\<open>select\<close> commits to a case exactly when that case is ready.\<close>

lemma Handle_select_ready: "(Handle_select w l ctx job \<noteq> None) = ready l ctx job w"
  by (cases w) (auto simp: Handle_select_def split: option.splits)

lemma Handle_select_token:
  "Handle_select TokenRecv l ctx job = Some r \<Longrightarrow> r = Inr (tryTakeToken l)"
  by (auto simp: Handle_select_def tryTakeToken_def split: option.splits)

lemma ready_token_select:
  "ready l ctx job TokenRecv \<Longrightarrow> Handle_select TokenRecv l ctx job = Some (Inr (tryTakeToken l))"
  by (auto simp: Handle_select_def tryTakeToken_def split: option.splits)

lemma ready_token_len: "ready l ctx job TokenRecv = (0 < len (tokenBucket l))"
  by (simp add: chan_recv_def len_def split: list.splits)

lemma Handle_token:
  "ready l ctx job TokenRecv \<Longrightarrow>
     Handle TokenRecv l ctx job = Some (Handle_next (tryTakeToken l) ctx job)"
  by (simp add: Handle_def ready_token_select del: ready.simps)

subsection \<open>Every step keeps the invariant\<close>

lemma same_limits_refl [simp]: "same_limits l l"
  by (simp add: same_limits_def)

lemma same_limits_take [simp]: "same_limits l (tryTakeToken l)"
  by (simp add: same_limits_def)

lemma same_limits_return [simp]: "same_limits l (tryReturnToken l)"
  by (simp add: same_limits_def)

lemma same_limits_trans: "same_limits a b \<Longrightarrow> same_limits b c \<Longrightarrow> same_limits a c"
  by (simp add: same_limits_def)

lemma Handle_select_inv:
  assumes "bucket_ok l" and "Handle_select w l ctx job = Some (Inr l')"
  shows "bucket_ok l' \<and> same_limits l l'"
proof -
  from assms(2) have "w = TokenRecv"
    by (cases w) (auto simp: Handle_select_def split: if_splits)
  with assms(2) have "l' = tryTakeToken l"
    using Handle_select_token by blast
  with assms(1) show ?thesis
    by (simp add: tryTakeToken_ok)
qed

lemma Handle_next_inv:
  "bucket_ok l \<Longrightarrow>
     bucket_ok (snd (Handle_next l ctx job)) \<and> same_limits l (snd (Handle_next l ctx job))"
  by (simp add: Handle_next_def tryReturnToken_ok split: option.splits)

lemma OnAdd_inv:
  "bucket_ok l \<Longrightarrow> bucket_ok (OnAdd F l obj b) \<and> same_limits l (OnAdd F l obj b)"
  by (simp add: OnAdd_def tryTakeToken_ok split: option.splits)

lemma OnUpdate_inv:
  "bucket_ok l \<Longrightarrow> bucket_ok (OnUpdate F l p c) \<and> same_limits l (OnUpdate F l p c)"
  by (simp add: OnUpdate_def tryReturnToken_ok split: option.splits)

lemma OnDelete_inv:
  "bucket_ok l \<Longrightarrow> bucket_ok (OnDelete F l obj) \<and> same_limits l (OnDelete F l obj)"
  by (simp add: OnDelete_def tryReturnToken_ok split: option.splits)

lemma do_step_inv:
  "bucket_ok l \<Longrightarrow> bucket_ok (do_step F l s) \<and> same_limits l (do_step F l s)"
proof (cases s)
  case (Select w ctx job)
  assume ok: "bucket_ok l"
  show ?thesis
  proof (cases "Handle_select w l ctx job")
    case None
    with Select ok show ?thesis by simp
  next
    case (Some r)
    show ?thesis
    proof (cases r)
      case (Inl e)
      with Some Select ok show ?thesis by simp
    next
      case (Inr l')
      with Some Select ok Handle_select_inv[of l w ctx job l'] show ?thesis by simp
    qed
  qed
next
  case (Next ctx job)
  assume "bucket_ok l"
  with Next show ?thesis by (simp add: Handle_next_inv)
next
  case (Add obj b)
  assume "bucket_ok l"
  with Add show ?thesis by (simp add: OnAdd_inv)
next
  case (Update p c)
  assume "bucket_ok l"
  with Update show ?thesis by (simp add: OnUpdate_inv)
next
  case (Delete obj)
  assume "bucket_ok l"
  with Delete show ?thesis by (simp add: OnDelete_inv)
qed

lemma run_inv:
  "bucket_ok l \<Longrightarrow> bucket_ok (run F l steps) \<and> same_limits l (run F l steps)"
proof (induction steps arbitrary: l)
  case Nil
  then show ?case by (simp add: run_def)
next
  case (Cons s steps)
  from do_step_inv[OF Cons.prems, of F s]
  have a: "bucket_ok (do_step F l s)" and b: "same_limits l (do_step F l s)" by simp_all
  from Cons.IH[OF a] b show ?case
    by (auto simp: run_def intro: same_limits_trans)
qed

lemma as_Job_None: "(as_Job obj = None) = (obj = NilAny \<or> obj = JobPtr None \<or> obj = OtherAny)"
  by (cases obj) simp_all

section \<open>The claims\<close>

text \<open>
  C8. Building the limiter with a limit of zero or less panics at once, with the message
  of the source; with a limit of at least one, \<open>New\<close> returns (the loop that fills the
  bucket never has to wait) a limiter whose bucket has the limit as its capacity and
  holds that many tokens.
\<close>

theorem New_capacity:
  "(maxInFlight \<le> 0 \<longrightarrow>
      New scheduler maxInFlight =
        Panic (''maxInFlight <= 0 (got '' @ Sprintf_d maxInFlight @ '')'')) \<and>
   (1 \<le> maxInFlight \<longrightarrow>
      (\<exists>l. New scheduler maxInFlight = Return l \<and> tokensAvailable l = maxInFlight \<and>
           MaxInFlight l = maxInFlight \<and> int (chan_cap (tokenBucket l)) = maxInFlight))"
  by (simp add: New_def fill_make_chan tokensAvailable_def len_def)

theorem New_capacity_witness:
  "New example_next 0 = Panic ''maxInFlight <= 0 (got 0)'' \<and>
   New example_next (- 12) = Panic ''maxInFlight <= 0 (got -12)'' \<and>
   (\<exists>l. New example_next 2 = Return l \<and> tokensAvailable l = 2 \<and> MaxInFlight l = 2 \<and>
        int (chan_cap (tokenBucket l)) = 2)"
proof -
  have d0: "Sprintf_d 0 = ''0''" and d12: "Sprintf_d (- 12) = ''-12''"
    by code_simp+
  show ?thesis
    using New_capacity [of 0 example_next] New_capacity [of "- 12" example_next]
      New_capacity [of 2 example_next] d0 d12
    by simp
qed

text \<open>
  C1. Start from a limiter that \<open>New\<close> returned for the limit \<open>n\<close> and let any sequence
  of steps run: selects of \<open>Handle\<close> (the blocking receive among them), the rest of
  \<open>Handle\<close> with its return of the token on failure, and the three callbacks, in any
  order and with any arguments. Then the number of tokens available is at least zero and
  at most the limit, the limit is still \<open>n\<close>, and when the bucket is full
  \<open>tryReturnToken\<close> gives back the limiter unchanged. \<open>tryReturnToken\<close> is a total
  function without an error result: it neither waits nor fails.
\<close>

theorem pool_bounds:
  assumes "New scheduler n = Return l"
  shows "0 \<le> tokensAvailable (run JobFinished l steps) \<and>
         tokensAvailable (run JobFinished l steps) \<le> MaxInFlight (run JobFinished l steps) \<and>
         MaxInFlight (run JobFinished l steps) = n \<and>
         (tokensAvailable (run JobFinished l steps) = n \<longrightarrow>
            tryReturnToken (run JobFinished l steps) = run JobFinished l steps)"
proof -
  from New_Return[OF assms] have n: "1 \<le> n" and ok: "bucket_ok l"
    and m: "MaxInFlight l = n" and c: "chan_cap (tokenBucket l) = nat n"
    by (simp_all add: bucket_ok_def len_def)
  from run_inv[OF ok, of JobFinished steps]
  have ok': "bucket_ok (run JobFinished l steps)"
    and s: "same_limits l (run JobFinished l steps)" by simp_all
  from s m c have m': "MaxInFlight (run JobFinished l steps) = n"
    and c': "chan_cap (tokenBucket (run JobFinished l steps)) = nat n"
    by (simp_all add: same_limits_def)
  from ok' c' n have le: "tokensAvailable (run JobFinished l steps) \<le> n"
    by (simp add: bucket_ok_def tokensAvailable_def)
  have full: "tokensAvailable (run JobFinished l steps) = n \<longrightarrow>
      tryReturnToken (run JobFinished l steps) = run JobFinished l steps"
  proof
    assume "tokensAvailable (run JobFinished l steps) = n"
    with c' n have "len (tokenBucket (run JobFinished l steps)) =
        chan_cap (tokenBucket (run JobFinished l steps))"
      by (simp add: tokensAvailable_def)
    then show "tryReturnToken (run JobFinished l steps) = run JobFinished l steps"
      by (rule tryReturnToken_full)
  qed
  from le m' full show ?thesis
    by (simp add: tokensAvailable_def)
qed

theorem pool_bounds_witness:
  "New example_next 2 = Return fresh_limiter \<and>
   0 \<le> tokensAvailable (run example_finished fresh_limiter example_run) \<and>
   tokensAvailable (run example_finished fresh_limiter example_run) \<le> 2 \<and>
   MaxInFlight (run example_finished fresh_limiter example_run) = 2 \<and>
   tokensAvailable (run example_finished fresh_limiter example_run) = 2 \<and>
   tryReturnToken (run example_finished fresh_limiter example_run) =
     run example_finished fresh_limiter example_run"
proof -
  have h: "New example_next 2 = Return fresh_limiter"
    by (rule New_fresh_limiter)
  have e: "run example_finished fresh_limiter example_run = fresh_limiter"
    by (simp add: run_def example_run_def fresh_limiter_def OnAdd_def OnUpdate_def OnDelete_def
        Handle_select_def Handle_next_def tryTakeToken_def tryReturnToken_def chan_recv_def
        chan_send_def len_def example_next_def)
  have t: "tokensAvailable fresh_limiter = 2"
    by (simp add: fresh_limiter_def tokensAvailable_def len_def)
  show ?thesis
    using h e t pool_bounds [OF h, of example_finished example_run] by simp
qed

text \<open>
  C2. When the context is cancelled and the \<^verbatim>\<open>select\<close> of \<open>Handle\<close> commits to that
  case, \<open>Handle\<close> returns the cause of the cancellation, which is an error and not nil,
  and the limiter it leaves is the one it found: no token is taken, whatever the bucket
  holds.
\<close>

theorem Handle_ctx_cancelled:
  assumes "Done ctx"
  shows "\<exists>l'. Handle CtxDone l ctx job = Some (Cause ctx, l') \<and> Cause ctx \<noteq> None \<and>
              l' = l \<and> tokensAvailable l' = tokensAvailable l"
  using assms by (cases ctx) (simp_all add: Handle_def Handle_select_def)

theorem Handle_ctx_cancelled_witness:
  "Done (Cancelled (Error ''context canceled'')) \<and>
   Handle CtxDone busy_limiter (Cancelled (Error ''context canceled''))
     \<lparr>Uuid = ''job-1'', StaleCh = False\<rparr> =
     Some (Some (Error ''context canceled''), busy_limiter)"
  using Handle_ctx_cancelled [of "Cancelled (Error ''context canceled'')" busy_limiter
      "\<lparr>Uuid = ''job-1'', StaleCh = False\<rparr>"]
  by simp

text \<open>
  C3. When the staleness signal of the job has fired and the \<^verbatim>\<open>select\<close> of \<open>Handle\<close>
  commits to that case, \<open>Handle\<close> returns \<open>ErrStaleJob\<close> and the limiter it leaves is
  the one it found: no token is taken, whatever the bucket holds.
\<close>

theorem Handle_job_stale:
  assumes "StaleCh job"
  shows "\<exists>l'. Handle JobStale l ctx job = Some (Some ErrStaleJob, l') \<and>
              l' = l \<and> tokensAvailable l' = tokensAvailable l"
  using assms by (simp add: Handle_def Handle_select_def)

theorem Handle_job_stale_witness:
  "StaleCh \<lparr>Uuid = ''job-1'', StaleCh = True\<rparr> \<and>
   Handle JobStale busy_limiter Live \<lparr>Uuid = ''job-1'', StaleCh = True\<rparr> =
     Some (Some ErrStaleJob, busy_limiter)"
  using Handle_job_stale [of "\<lparr>Uuid = ''job-1'', StaleCh = True\<rparr>" busy_limiter Live]
  by simp

text \<open>
  C4. When the \<^verbatim>\<open>select\<close> of \<open>Handle\<close> commits to the receive of a token, the job goes
  to the next handler. If the next handler returns an error, \<open>Handle\<close> returns that
  very error and offers one token back with \<open>tryReturnToken\<close>; with nothing else
  running in between, and a bucket within its capacity, as many tokens are available
  after the call as before. If the next handler returns nil, \<open>Handle\<close> returns nil and
  the token stays taken: one token fewer is available.
\<close>

theorem Handle_forward:
  assumes "ready l ctx job TokenRecv"
  shows "(\<forall>err. handler l ctx job = Some err \<longrightarrow>
            Handle TokenRecv l ctx job = Some (Some err, tryReturnToken (tryTakeToken l)) \<and>
            (tokensAvailable l \<le> int (chan_cap (tokenBucket l)) \<longrightarrow>
               tokensAvailable (tryReturnToken (tryTakeToken l)) = tokensAvailable l)) \<and>
         (handler l ctx job = None \<longrightarrow>
            Handle TokenRecv l ctx job = Some (None, tryTakeToken l) \<and>
            tokensAvailable (tryTakeToken l) = tokensAvailable l - 1)"
proof -
  from assms have pos: "0 < tokensAvailable l"
    by (simp add: ready_token_len tokensAvailable_def del: ready.simps)
  have h: "Handle TokenRecv l ctx job = Some (Handle_next (tryTakeToken l) ctx job)"
    using assms by (rule Handle_token)
  have restored: "tokensAvailable l \<le> int (chan_cap (tokenBucket l)) \<longrightarrow>
      tokensAvailable (tryReturnToken (tryTakeToken l)) = tokensAvailable l"
    using pos by (simp add: tokens_return tokens_take)
  have taken: "tokensAvailable (tryTakeToken l) = tokensAvailable l - 1"
    using pos by (simp add: tokens_take)
  show ?thesis
    using h restored taken by (simp add: Handle_next_def)
qed

theorem Handle_forward_witness:
  "ready busy_limiter Live \<lparr>Uuid = ''bad'', StaleCh = False\<rparr> TokenRecv \<and>
   Handle TokenRecv busy_limiter Live \<lparr>Uuid = ''bad'', StaleCh = False\<rparr> =
     Some (Some (Error ''cannot schedule''), busy_limiter) \<and>
   ready busy_limiter Live \<lparr>Uuid = ''job-1'', StaleCh = False\<rparr> TokenRecv \<and>
   Handle TokenRecv busy_limiter Live \<lparr>Uuid = ''job-1'', StaleCh = False\<rparr> =
     Some (None, busy_limiter\<lparr>tokenBucket := \<lparr>chan_cap = 2, chan_buf = []\<rparr>\<rparr>)"
proof -
  have r: "ready busy_limiter Live j TokenRecv" for j
    by (simp add: busy_limiter_def chan_recv_def)
  have t: "tryTakeToken busy_limiter =
      busy_limiter\<lparr>tokenBucket := \<lparr>chan_cap = 2, chan_buf = []\<rparr>\<rparr>"
    by (simp add: busy_limiter_def tryTakeToken_def chan_recv_def)
  have u: "tryReturnToken (busy_limiter\<lparr>tokenBucket := \<lparr>chan_cap = 2, chan_buf = []\<rparr>\<rparr>) =
      busy_limiter"
    by (simp add: busy_limiter_def tryReturnToken_def chan_send_def len_def)
  have hb: "handler busy_limiter Live \<lparr>Uuid = ''bad'', StaleCh = False\<rparr> =
      Some (Error ''cannot schedule'')"
    and hg: "handler busy_limiter Live \<lparr>Uuid = ''job-1'', StaleCh = False\<rparr> = None"
    by (simp_all add: busy_limiter_def example_next_def)
  show ?thesis
    using Handle_forward [OF r, of "\<lparr>Uuid = ''bad'', StaleCh = False\<rparr>"]
      Handle_forward [OF r, of "\<lparr>Uuid = ''job-1'', StaleCh = False\<rparr>"] r t u hb hg
    by simp
qed

text \<open>
  C5. For an added resource that is a job: in the initial list and not finished,
  \<open>OnAdd\<close> is \<open>tryTakeToken\<close>, which takes one token when one is available and
  changes nothing when the bucket is empty; in the initial list and finished, or not in
  the initial list, the limiter is unchanged. In numbers: one token fewer is available
  exactly when the resource is in the initial list, not finished and a token was there.
\<close>

theorem OnAdd_job:
  assumes "as_Job obj = Some job"
  shows "OnAdd JobFinished l obj inInitialList =
           (if inInitialList \<and> \<not> JobFinished job then tryTakeToken l else l) \<and>
         tokensAvailable (OnAdd JobFinished l obj inInitialList) =
           (if inInitialList \<and> \<not> JobFinished job \<and> 0 < tokensAvailable l
            then tokensAvailable l - 1 else tokensAvailable l) \<and>
         (tokensAvailable l = 0 \<longrightarrow> OnAdd JobFinished l obj inInitialList = l)"
  using assms by (simp add: OnAdd_def tokens_take tryTakeToken_empty)

theorem OnAdd_job_witness:
  "as_Job (JobPtr (Some Running)) = Some Running \<and>
   tokensAvailable (OnAdd example_finished fresh_limiter (JobPtr (Some Running)) True) = 1 \<and>
   tokensAvailable (OnAdd example_finished fresh_limiter (JobPtr (Some Running)) False) = 2 \<and>
   as_Job (JobPtr (Some Succeeded)) = Some Succeeded \<and>
   tokensAvailable (OnAdd example_finished fresh_limiter (JobPtr (Some Succeeded)) True) = 2"
proof -
  have t: "tokensAvailable fresh_limiter = 2"
    by (simp add: fresh_limiter_def tokensAvailable_def len_def)
  show ?thesis
    using OnAdd_job [of "JobPtr (Some Running)" Running example_finished fresh_limiter True]
      OnAdd_job [of "JobPtr (Some Running)" Running example_finished fresh_limiter False]
      OnAdd_job [of "JobPtr (Some Succeeded)" Succeeded example_finished fresh_limiter True] t
    by auto
qed

text \<open>
  C6. For an update whose previous and current states are both jobs: when the previous
  state is not finished and the current one is, \<open>OnUpdate\<close> is \<open>tryReturnToken\<close>; in
  every other combination the limiter is unchanged. In numbers: one more token is
  available exactly when the job went from not finished to finished and the bucket had
  room.
\<close>

theorem OnUpdate_job:
  assumes "as_Job prevObj = Some prevState" and "as_Job currObj = Some currState"
  shows "OnUpdate JobFinished l prevObj currObj =
           (if \<not> JobFinished prevState \<and> JobFinished currState then tryReturnToken l else l) \<and>
         tokensAvailable (OnUpdate JobFinished l prevObj currObj) =
           (if \<not> JobFinished prevState \<and> JobFinished currState \<and>
               tokensAvailable l < int (chan_cap (tokenBucket l))
            then tokensAvailable l + 1 else tokensAvailable l)"
  using assms by (simp add: OnUpdate_def tokens_return)

theorem OnUpdate_job_witness:
  "as_Job (JobPtr (Some Running)) = Some Running \<and>
   as_Job (JobPtr (Some Succeeded)) = Some Succeeded \<and>
   tokensAvailable
     (OnUpdate example_finished busy_limiter (JobPtr (Some Running)) (JobPtr (Some Succeeded))) = 2 \<and>
   tokensAvailable
     (OnUpdate example_finished busy_limiter (JobPtr (Some Running)) (JobPtr (Some Running))) = 1 \<and>
   tokensAvailable
     (OnUpdate example_finished busy_limiter (JobPtr (Some Succeeded)) (JobPtr (Some Succeeded))) = 1 \<and>
   tokensAvailable
     (OnUpdate example_finished busy_limiter (JobPtr (Some Succeeded)) (JobPtr (Some Running))) = 1"
proof -
  have t: "tokensAvailable busy_limiter = 1" "chan_cap (tokenBucket busy_limiter) = 2"
    by (simp_all add: busy_limiter_def tokensAvailable_def len_def)
  have a: "as_Job (JobPtr (Some Running)) = Some Running"
    and b: "as_Job (JobPtr (Some Succeeded)) = Some Succeeded"
    by simp_all
  show ?thesis
    using OnUpdate_job [OF a b, of example_finished busy_limiter]
      OnUpdate_job [OF a a, of example_finished busy_limiter]
      OnUpdate_job [OF b b, of example_finished busy_limiter]
      OnUpdate_job [OF b a, of example_finished busy_limiter] t
    by auto
qed

text \<open>
  C7. For a deleted resource whose last known state is a job: when that state is not
  finished, \<open>OnDelete\<close> is \<open>tryReturnToken\<close>; when it is finished, the limiter is
  unchanged. In numbers: one more token is available exactly when the last known state
  was not finished and the bucket had room.
\<close>

theorem OnDelete_job:
  assumes "as_Job obj = Some prevState"
  shows "OnDelete JobFinished l obj =
           (if \<not> JobFinished prevState then tryReturnToken l else l) \<and>
         tokensAvailable (OnDelete JobFinished l obj) =
           (if \<not> JobFinished prevState \<and> tokensAvailable l < int (chan_cap (tokenBucket l))
            then tokensAvailable l + 1 else tokensAvailable l)"
  using assms by (simp add: OnDelete_def tokens_return)

theorem OnDelete_job_witness:
  "as_Job (JobPtr (Some Running)) = Some Running \<and>
   tokensAvailable (OnDelete example_finished busy_limiter (JobPtr (Some Running))) = 2 \<and>
   as_Job (JobPtr (Some Failed)) = Some Failed \<and>
   tokensAvailable (OnDelete example_finished busy_limiter (JobPtr (Some Failed))) = 1"
proof -
  have t: "tokensAvailable busy_limiter = 1" "chan_cap (tokenBucket busy_limiter) = 2"
    by (simp_all add: busy_limiter_def tokensAvailable_def len_def)
  show ?thesis
    using OnDelete_job [of "JobPtr (Some Running)" Running example_finished busy_limiter]
      OnDelete_job [of "JobPtr (Some Failed)" Failed example_finished busy_limiter] t
    by auto
qed

text \<open>
  C9. A payload that is not a job (nil, a nil job pointer, or a value of another type)
  makes \<open>OnAdd\<close> and \<open>OnDelete\<close> return with the limiter unchanged, and so does
  \<open>OnUpdate\<close> as soon as the previous or the current payload is not a job. The
  callbacks have no error result.
\<close>

theorem callbacks_ignore_other_payloads:
  "(as_Job obj = None \<longrightarrow>
      OnAdd JobFinished l obj inInitialList = l \<and> OnDelete JobFinished l obj = l) \<and>
   (as_Job prevObj = None \<or> as_Job currObj = None \<longrightarrow>
      OnUpdate JobFinished l prevObj currObj = l)"
  by (auto simp: OnAdd_def OnDelete_def OnUpdate_def split: option.splits)

theorem callbacks_ignore_other_payloads_witness:
  "as_Job (OtherAny :: example_resource any) = None \<and>
   OnAdd example_finished busy_limiter OtherAny True = busy_limiter \<and>
   OnDelete example_finished busy_limiter OtherAny = busy_limiter \<and>
   as_Job (JobPtr (None :: example_resource option)) = None \<and>
   OnUpdate example_finished busy_limiter (JobPtr (Some Running)) (JobPtr None) = busy_limiter \<and>
   OnUpdate example_finished busy_limiter NilAny (JobPtr (Some Succeeded)) = busy_limiter"
  using callbacks_ignore_other_payloads
      [of OtherAny example_finished busy_limiter True "JobPtr (Some Running)" "JobPtr None"]
    callbacks_ignore_other_payloads
      [of OtherAny example_finished busy_limiter True NilAny "JobPtr (Some Succeeded)"]
  by simp

text \<open>
  C10. As the claim states it, \<open>Handle\<close> would never return \<open>ErrStaleJob\<close> once it
  has a token. It does when the next handler returns that error: with one token in the
  bucket, a job whose staleness signal has fired, and a \<^verbatim>\<open>select\<close> that commits to the
  token, the example handler refuses the job as stale and \<open>Handle\<close> passes the error
  on.
\<close>

theorem Handle_stale_after_token_counterexample:
  "Handle_select TokenRecv busy_limiter Live \<lparr>Uuid = ''job-1'', StaleCh = True\<rparr> =
     Some (Inr (busy_limiter\<lparr>tokenBucket := \<lparr>chan_cap = 2, chan_buf = []\<rparr>\<rparr>)) \<and>
   Handle TokenRecv busy_limiter Live \<lparr>Uuid = ''job-1'', StaleCh = True\<rparr> =
     Some (Some ErrStaleJob, busy_limiter)"
  by (simp add: Handle_def Handle_select_def Handle_next_def busy_limiter_def
      chan_recv_def tryReturnToken_def chan_send_def len_def example_next_def)

text \<open>
  C10, amended. After the token, \<open>Handle\<close> does not look at the staleness signal any
  more: whenever the \<^verbatim>\<open>select\<close> can commit to the token, fired signal or not, the job
  goes to the next handler and \<open>Handle\<close> returns what the next handler returns. So
  \<open>Handle\<close> returns \<open>ErrStaleJob\<close> either before it takes a token, leaving the limiter
  as it found it, or after it, and then only because the next handler returned
  \<open>ErrStaleJob\<close>.
\<close>

theorem Handle_stale_after_token:
  "(ready l ctx job TokenRecv \<longrightarrow>
      (\<exists>l'. Handle TokenRecv l ctx job = Some (handler l ctx job, l'))) \<and>
   (Handle w l ctx job = Some (Some ErrStaleJob, l') \<longrightarrow>
      (w \<noteq> TokenRecv \<and> l' = l) \<or> (w = TokenRecv \<and> handler l ctx job = Some ErrStaleJob))"
proof (rule conjI; rule impI)
  assume r: "ready l ctx job TokenRecv"
  show "\<exists>l'. Handle TokenRecv l ctx job = Some (handler l ctx job, l')"
    by (simp add: Handle_token[OF r] Handle_next_def split: option.splits)
next
  assume h: "Handle w l ctx job = Some (Some ErrStaleJob, l')"
  show "(w \<noteq> TokenRecv \<and> l' = l) \<or> (w = TokenRecv \<and> handler l ctx job = Some ErrStaleJob)"
  proof (cases w)
    case CtxDone
    with h show ?thesis by (auto simp: Handle_def Handle_select_def split: if_splits)
  next
    case JobStale
    with h show ?thesis by (auto simp: Handle_def Handle_select_def split: if_splits)
  next
    case TokenRecv
    with h have "ready l ctx job TokenRecv"
      using Handle_select_ready[of TokenRecv l ctx job]
      by (auto simp: Handle_def split: option.splits)
    from Handle_token[OF this] h TokenRecv show ?thesis
      by (auto simp: Handle_next_def split: option.splits)
  qed
qed

theorem Handle_stale_after_token_witness:
  "ready fresh_limiter (Cancelled ErrStaleJob) \<lparr>Uuid = ''job-1'', StaleCh = False\<rparr> TokenRecv \<and>
   (\<exists>l'. Handle TokenRecv fresh_limiter (Cancelled ErrStaleJob)
            \<lparr>Uuid = ''job-1'', StaleCh = False\<rparr> = Some (None, l')) \<and>
   Handle CtxDone fresh_limiter (Cancelled ErrStaleJob) \<lparr>Uuid = ''job-1'', StaleCh = False\<rparr> =
     Some (Some ErrStaleJob, fresh_limiter)"
proof -
  have r: "ready fresh_limiter (Cancelled ErrStaleJob) \<lparr>Uuid = ''job-1'', StaleCh = False\<rparr> TokenRecv"
    by (simp add: fresh_limiter_def chan_recv_def)
  have n: "handler fresh_limiter (Cancelled ErrStaleJob) \<lparr>Uuid = ''job-1'', StaleCh = False\<rparr> = None"
    by (simp add: fresh_limiter_def example_next_def)
  have c: "Handle CtxDone fresh_limiter (Cancelled ErrStaleJob)
      \<lparr>Uuid = ''job-1'', StaleCh = False\<rparr> = Some (Some ErrStaleJob, fresh_limiter)"
    by (simp add: Handle_def Handle_select_def)
  show ?thesis
    using Handle_stale_after_token [of fresh_limiter "Cancelled ErrStaleJob"
        "\<lparr>Uuid = ''job-1'', StaleCh = False\<rparr>" CtxDone fresh_limiter] r n c
    by simp
qed

end
